theory Spec2Isabelle
  imports Main
begin

section \<open>The value model\<close>

text \<open>
  The functions of \<^verbatim>\<open>jello/lib.py\<close> work on what \<^verbatim>\<open>json.loads\<close> or the user's query
  returned: \<^verbatim>\<open>None\<close>, \<^verbatim>\<open>bool\<close>, \<^verbatim>\<open>int\<close>, \<^verbatim>\<open>float\<close>, \<^verbatim>\<open>str\<close>, \<^verbatim>\<open>list\<close>, \<^verbatim>\<open>dict\<close>, or any
  other Python object. A string is a \<open>char list\<close> with one \<open>char\<close> for each code point, so
  the model covers the code points below 256. A dictionary is the list of its items in
  insertion order; its keys are strings, as \<^verbatim>\<open>json.loads\<close> makes them. A float is kept as
  the text that \<^verbatim>\<open>float.__repr__\<close> gives for it (the conversion from the binary value is not
  part of the model), with the three non-finite values apart, since \<^verbatim>\<open>json.dumps\<close> and
  \<^verbatim>\<open>repr\<close> write them differently. \<open>Foreign\<close> is an object that \<^verbatim>\<open>json.dumps\<close> cannot
  serialize (a set, a function, ...); it carries its \<^verbatim>\<open>repr\<close> text.
\<close>

datatype pyfloat = Finite string | NaN | PosInf | NegInf

datatype pyval =
    PNone
  | PBool bool
  | PInt int
  | PFloat pyfloat
  | PStr string
  | PList "pyval list"
  | PDict "(string \<times> pyval) list"
  | Foreign string

datatype error = TypeError | ValueError

text \<open>The attributes of \<^verbatim>\<open>class opts\<close> that the two classes read, by their truth value.\<close>

record opts =
  compact :: bool
  nulls :: bool
  raw :: bool
  lines :: bool
  mono :: bool
  types :: bool

abbreviation DQ :: char where "DQ \<equiv> CHR 0x22"
abbreviation BSL :: char where "BSL \<equiv> CHR 0x5C"
abbreviation NL :: char where "NL \<equiv> CHR 0x0A"
abbreviation SP :: char where "SP \<equiv> CHR 0x20"

section \<open>Python built-ins\<close>

text \<open>
  Decimal text of a natural number and of an integer (\<^verbatim>\<open>int.__repr__\<close>). \<open>digit_char\<close>
  is only applied to numbers below 10, and \<open>hex_char\<close> to numbers below 16.
\<close>

definition digit_char :: "nat \<Rightarrow> char" where
  "digit_char d = ''0123456789'' ! d"

function nat_repr :: "nat \<Rightarrow> string" where
  "nat_repr n = (if n < 10 then [digit_char n] else nat_repr (n div 10) @ [digit_char (n mod 10)])"
  by pat_completeness auto
termination
  by (relation "measure id") auto

declare nat_repr.simps [simp del]

definition int_repr :: "int \<Rightarrow> string" where
  "int_repr i = (if i < 0 then CHR ''-'' # nat_repr (nat (- i)) else nat_repr (nat i))"

text \<open>\<^verbatim>\<open>sep.join(xs)\<close>.\<close>

fun join :: "string \<Rightarrow> string list \<Rightarrow> string" where
  "join sep [] = []"
| "join sep [x] = x"
| "join sep (x # y # ys) = x @ sep @ join sep (y # ys)"

text \<open>
  \<^verbatim>\<open>str.isspace\<close> on one character, for the code points below 256, and \<^verbatim>\<open>str.rstrip()\<close>,
  which removes the longest suffix of such characters.
\<close>

definition char_isspace :: "char \<Rightarrow> bool" where
  "char_isspace c = (let n = (of_char c :: nat) in
     (9 \<le> n \<and> n \<le> 13) \<or> (28 \<le> n \<and> n \<le> 32) \<or> n = 133 \<or> n = 160)"

definition rstrip :: "string \<Rightarrow> string" where
  "rstrip s = rev (dropWhile char_isspace (rev s))"

text \<open>
  \<^verbatim>\<open>str.isdigit\<close>: the string is not empty and every character is a digit; below 256 the
  digits are \<^verbatim>\<open>0\<close> to \<^verbatim>\<open>9\<close> and the superscripts two, three and one.
\<close>

definition char_isdigit :: "char \<Rightarrow> bool" where
  "char_isdigit c = (let n = (of_char c :: nat) in
     (48 \<le> n \<and> n \<le> 57) \<or> n = 178 \<or> n = 179 \<or> n = 185)"

definition isdigit :: "string \<Rightarrow> bool" where
  "isdigit s = (s \<noteq> [] \<and> list_all char_isdigit s)"

text \<open>\<^verbatim>\<open>s.replace('\n', '\\n')\<close>: every newline becomes a backslash and the letter n.\<close>

fun replace_newlines :: "string \<Rightarrow> string" where
  "replace_newlines [] = []"
| "replace_newlines (c # cs) =
     (if c = NL then BSL # CHR ''n'' # replace_newlines cs else c # replace_newlines cs)"

text \<open>\<^verbatim>\<open>val.replace('.', '', 1)\<close>: the first full stop, if there is one, is removed.\<close>

definition replace_first_dot :: "string \<Rightarrow> string" where
  "replace_first_dot val = remove1 (CHR ''.'') val"

definition hex_char :: "nat \<Rightarrow> char" where
  "hex_char d = ''0123456789abcdef'' ! d"

definition hex2 :: "char \<Rightarrow> string" where
  "hex2 c = [hex_char ((of_char c :: nat) div 16), hex_char ((of_char c :: nat) mod 16)]"

subsection \<open>\<^verbatim>\<open>repr\<close>\<close>

text \<open>
  \<^verbatim>\<open>repr\<close> of a string: single quotes, unless the string has a single quote and no double
  quote; the quote and the backslash are escaped, tab, newline and carriage return have
  their letter, and the other characters that are not printable are written \<^verbatim>\<open>\xhh\<close>.
\<close>

definition char_printable :: "char \<Rightarrow> bool" where
  "char_printable c = (let n = (of_char c :: nat) in
     32 \<le> n \<and> n \<noteq> 127 \<and> \<not> (128 \<le> n \<and> n \<le> 160) \<and> n \<noteq> 173)"

definition repr_char :: "char \<Rightarrow> char \<Rightarrow> string" where
  "repr_char q c =
     (if c = q \<or> c = BSL then [BSL, c]
      else if c = CHR 0x09 then [BSL, CHR ''t'']
      else if c = NL then [BSL, CHR ''n'']
      else if c = CHR 0x0D then [BSL, CHR ''r'']
      else if \<not> char_printable c then BSL # CHR ''x'' # hex2 c
      else [c])"

definition str_repr :: "string \<Rightarrow> string" where
  "str_repr s =
     (let q = (if CHR 0x27 \<in> set s \<and> DQ \<notin> set s then DQ else CHR 0x27)
      in q # concat (map (repr_char q) s) @ [q])"

fun float_repr :: "pyfloat \<Rightarrow> string" where
  "float_repr (Finite t) = t"
| "float_repr NaN = ''nan''"
| "float_repr PosInf = ''inf''"
| "float_repr NegInf = ''-inf''"

fun py_repr :: "pyval \<Rightarrow> string" where
  "py_repr PNone = ''None''"
| "py_repr (PBool b) = (if b then ''True'' else ''False'')"
| "py_repr (PInt i) = int_repr i"
| "py_repr (PFloat f) = float_repr f"
| "py_repr (PStr s) = str_repr s"
| "py_repr (PList xs) = ''['' @ join '', '' (map py_repr xs) @ '']''"
| "py_repr (PDict kvs) =
     ''{'' @ join '', '' (map (\<lambda>kv. str_repr (fst kv) @ '': '' @ py_repr (snd kv)) kvs) @ ''}''"
| "py_repr (Foreign r) = r"

subsection \<open>\<^verbatim>\<open>json.dumps\<close>\<close>

text \<open>
  A string with \<^verbatim>\<open>ensure_ascii=False\<close>: between double quotes, with the double quote, the
  backslash and the control characters below 32 escaped, and everything else as it is.
\<close>

definition json_escape_char :: "char \<Rightarrow> string" where
  "json_escape_char c =
     (if c = DQ then [BSL, DQ]
      else if c = BSL then [BSL, BSL]
      else if c = NL then [BSL, CHR ''n'']
      else if c = CHR 0x0D then [BSL, CHR ''r'']
      else if c = CHR 0x09 then [BSL, CHR ''t'']
      else if c = CHR 0x08 then [BSL, CHR ''b'']
      else if c = CHR 0x0C then [BSL, CHR ''f'']
      else if (of_char c :: nat) < 32 then [BSL, CHR ''u'', CHR ''0'', CHR ''0''] @ hex2 c
      else [c])"

definition json_str :: "string \<Rightarrow> string" where
  "json_str s = DQ # concat (map json_escape_char s) @ [DQ]"

fun float_json :: "pyfloat \<Rightarrow> string" where
  "float_json (Finite t) = t"
| "float_json NaN = ''NaN''"
| "float_json PosInf = ''Infinity''"
| "float_json NegInf = ''-Infinity''"

text \<open>
  The text \<^verbatim>\<open>json.dumps\<close> writes, with the item separator, the key separator, the indent
  (\<open>None\<close> for one line) and the nesting level. An empty list or dictionary is written
  without a line break. The text of a \<open>Foreign\<close> object is never used: \<open>dumps\<close> raises
  for it.
\<close>

definition newline_indent :: "nat option \<Rightarrow> nat \<Rightarrow> string" where
  "newline_indent indent level =
     (case indent of None \<Rightarrow> [] | Some n \<Rightarrow> NL # replicate (n * level) SP)"

fun encode :: "string \<Rightarrow> string \<Rightarrow> nat option \<Rightarrow> nat \<Rightarrow> pyval \<Rightarrow> string" where
  "encode isep ksep indent level PNone = ''null''"
| "encode isep ksep indent level (PBool b) = (if b then ''true'' else ''false'')"
| "encode isep ksep indent level (PInt i) = int_repr i"
| "encode isep ksep indent level (PFloat f) = float_json f"
| "encode isep ksep indent level (PStr s) = json_str s"
| "encode isep ksep indent level (PList xs) =
     (if xs = [] then ''[]''
      else ''['' @ newline_indent indent (Suc level)
        @ join (isep @ newline_indent indent (Suc level))
            (map (encode isep ksep indent (Suc level)) xs)
        @ newline_indent indent level @ '']'')"
| "encode isep ksep indent level (PDict kvs) =
     (if kvs = [] then ''{}''
      else ''{'' @ newline_indent indent (Suc level)
        @ join (isep @ newline_indent indent (Suc level))
            (map (\<lambda>kv. json_str (fst kv) @ ksep @ encode isep ksep indent (Suc level) (snd kv)) kvs)
        @ newline_indent indent level @ ''}'')"
| "encode isep ksep indent level (Foreign r) = []"

text \<open>\<^verbatim>\<open>json.dumps\<close> raises \<^verbatim>\<open>TypeError\<close> when it meets an object it cannot serialize.\<close>

fun has_foreign :: "pyval \<Rightarrow> bool" where
  "has_foreign (PList xs) = list_ex has_foreign xs"
| "has_foreign (PDict kvs) = list_ex (\<lambda>kv. has_foreign (snd kv)) kvs"
| "has_foreign (Foreign r) = True"
| "has_foreign v = False"

text \<open>
  \<^verbatim>\<open>json.dumps(obj, separators=separators, indent=indent, ensure_ascii=False)\<close>: without
  \<^verbatim>\<open>separators\<close> the item separator is a comma and a space on one line and a comma
  when \<^verbatim>\<open>indent\<close> is given, and the key separator is a colon and a space.
\<close>

definition dumps :: "(string \<times> string) option \<Rightarrow> nat option \<Rightarrow> pyval \<Rightarrow> error + string" where
  "dumps separators indent obj =
     (let seps = (case separators of
                    Some p \<Rightarrow> p
                  | None \<Rightarrow> (if indent = None then ('', '', '': '') else ('','', '': '')))
      in if has_foreign obj then Inl TypeError
         else Inr (encode (fst seps) (snd seps) indent 0 obj))"

section \<open>\<^verbatim>\<open>Json.create_json\<close>\<close>

text \<open>
  The check for a list inside the list (lines 249 to 253): the loop stops at the first
  element that is a list.
\<close>

fun is_list :: "pyval \<Rightarrow> bool" where
  "is_list (PList xs) = True"
| "is_list v = False"

fun list_includes_list :: "pyval list \<Rightarrow> bool" where
  "list_includes_list [] = False"
| "list_includes_list (item # data) = (if is_list item then True else list_includes_list data)"

text \<open>
  The loop of lines 261 to 277 over the entries, with \<open>flat_list\<close> as the accumulator.
  The \<^verbatim>\<open>if\<close>/\<^verbatim>\<open>elif\<close> chain has no \<^verbatim>\<open>else\<close>: an entry that is none of \<^verbatim>\<open>None\<close>, \<^verbatim>\<open>dict\<close>,
  \<^verbatim>\<open>bool\<close>, \<^verbatim>\<open>int\<close>, \<^verbatim>\<open>float\<close>, \<^verbatim>\<open>str\<close> adds nothing to \<open>flat_list\<close>.
\<close>

fun flat_loop :: "opts \<Rightarrow> (string \<times> string) option \<Rightarrow> pyval list \<Rightarrow> string \<Rightarrow> error + string" where
  "flat_loop cfg separators [] flat_list = Inr flat_list"
| "flat_loop cfg separators (PNone # data) flat_list =
     (if nulls cfg then flat_loop cfg separators data (flat_list @ ''null'' @ [NL])
      else flat_loop cfg separators data (flat_list @ [NL]))"
| "flat_loop cfg separators (PStr s # data) flat_list =
     (let entry = replace_newlines s
      in if raw cfg then flat_loop cfg separators data (flat_list @ entry @ [NL])
         else flat_loop cfg separators data (flat_list @ ([DQ] @ entry @ [DQ]) @ [NL]))"
| "flat_loop cfg separators (PList xs # data) flat_list = flat_loop cfg separators data flat_list"
| "flat_loop cfg separators (Foreign r # data) flat_list = flat_loop cfg separators data flat_list"
| "flat_loop cfg separators (entry # data) flat_list =
     (case dumps separators None entry of
        Inl e \<Rightarrow> Inl e
      | Inr t \<Rightarrow> flat_loop cfg separators data (flat_list @ t @ [NL]))"

definition create_json :: "opts \<Rightarrow> pyval \<Rightarrow> error + string" where
  "create_json cfg data =
     (let separators = (if compact cfg \<or> lines cfg then Some ('','', '':'') else None);
          indent = (if compact cfg \<or> lines cfg then None else Some 2)
      in case data of
           PDict kvs \<Rightarrow> dumps separators indent data
         | PList xs \<Rightarrow>
             if \<not> lines cfg then dumps separators indent data
             else if lines cfg \<and> list_includes_list xs then Inl ValueError
             else (case flat_loop cfg separators xs [] of
                     Inl e \<Rightarrow> Inl e
                   | Inr flat_list \<Rightarrow> Inr (rstrip flat_list))
         | PNone \<Rightarrow> if nulls cfg then Inr ''null'' else Inr []
         | PBool b \<Rightarrow> dumps None None data
         | PInt i \<Rightarrow> dumps None None data
         | PFloat f \<Rightarrow> dumps None None data
         | PStr s \<Rightarrow>
             (let data' = replace_newlines s
              in if raw cfg then Inr data' else Inr ([DQ] @ data' @ [DQ]))
         | Foreign r \<Rightarrow>
             (case dumps None None data of Inl e \<Rightarrow> Inl e | Inr t \<Rightarrow> Inl TypeError))"

section \<open>\<^verbatim>\<open>Schema\<close>\<close>

text \<open>The type comment of lines 172 to 179 and 192 to 199, computed from the text \<open>val\<close>.\<close>

definition val_type_of :: "string \<Rightarrow> string" where
  "val_type_of val =
     (if val = ''true'' \<or> val = ''false'' then ''// (boolean)''
      else if val = ''null'' then ''// (null)''
      else if isdigit (replace_first_dot val) then ''// (number)''
      else ''// (string)'')"

text \<open>
  Lines 167 to 185: the line for a member \<open>k\<close> of a dictionary whose value \<open>v\<close> is neither a
  list nor a dictionary. \<open>n * ' '\<close> is the empty string when \<open>n\<close> is not positive; here
  \<open>n\<close> is never negative.
\<close>

definition member_line :: "opts \<Rightarrow> string \<Rightarrow> string \<Rightarrow> pyval \<Rightarrow> error + string" where
  "member_line cfg path k v =
     (case dumps None None v of
        Inl e \<Rightarrow> Inl e
      | Inr val \<Rightarrow>
          (let val_type = (if types cfg then val_type_of val else []);
               padding =
                 (if types cfg
                  then (if length path + length k + length val + length val_type < 70
                        then replicate (69 - (length path + length k + length val + length val_type)) SP
                        else ''  '')
                  else [])
           in Inr (path @ ''.'' @ k @ '' = '' @ val @ '';'' @ padding @ val_type)))"

text \<open>
  Lines 188 to 207: the line for a value that is neither a list nor a dictionary. The
  padding is computed whether or not \<open>types\<close> is set.
\<close>

definition leaf_line :: "opts \<Rightarrow> string \<Rightarrow> pyval \<Rightarrow> error + string" where
  "leaf_line cfg path src =
     (case dumps None None src of
        Inl e \<Rightarrow> Inl e
      | Inr val \<Rightarrow>
          (let val_type = (if types cfg then val_type_of val else []);
               path' = (if path = [] then ''.'' else path);
               padding =
                 (if length path' + length val + length val_type < 70
                  then replicate (70 - (length path' + length val + length val_type)) SP
                  else ''  '')
           in Inr (path' @ '' = '' @ val @ '';'' @ padding @ val_type)))"

text \<open>
  \<^verbatim>\<open>_schema_gen\<close> appends to \<^verbatim>\<open>self._schema_list\<close>; the model passes the list through.
  \<open>schema_each\<close> is a loop \<^verbatim>\<open>for i, item in enumerate(...)\<close> that calls \<^verbatim>\<open>_schema_gen\<close> on
  each item with the path \<open>pathf i\<close>; \<open>schema_items\<close> is the loop over the items of a
  dictionary (lines 156 to 185). An exception ends the walk.
\<close>

fun schema_gen :: "opts \<Rightarrow> pyval \<Rightarrow> string \<Rightarrow> string list \<Rightarrow> error + string list"
  and schema_each :: "opts \<Rightarrow> (nat \<Rightarrow> string) \<Rightarrow> nat \<Rightarrow> pyval list \<Rightarrow> string list \<Rightarrow> error + string list"
  and schema_items :: "opts \<Rightarrow> string \<Rightarrow> (string \<times> pyval) list \<Rightarrow> string list \<Rightarrow> error + string list"
where
  "schema_gen cfg (PList xs) path schema_list =
     (if path = []
      then schema_each cfg (\<lambda>i. ''.['' @ nat_repr i @ '']'') 0 xs schema_list
      else schema_each cfg (\<lambda>i. path @ ''.'' @ py_repr (PList xs) @ ''['' @ nat_repr i @ '']'') 0 xs
             schema_list)"
| "schema_gen cfg (PDict kvs) path schema_list = schema_items cfg path kvs schema_list"
| "schema_gen cfg src path schema_list =
     (case leaf_line cfg path src of
        Inl e \<Rightarrow> Inl e
      | Inr l \<Rightarrow> Inr (schema_list @ [l]))"
| "schema_each cfg pathf i [] schema_list = Inr schema_list"
| "schema_each cfg pathf i (item # rest) schema_list =
     (case schema_gen cfg item (pathf i) schema_list of
        Inl e \<Rightarrow> Inl e
      | Inr schema_list' \<Rightarrow> schema_each cfg pathf (Suc i) rest schema_list')"
| "schema_items cfg path [] schema_list = Inr schema_list"
| "schema_items cfg path ((k, PList ys) # rest) schema_list =
     (case schema_each cfg (\<lambda>i. path @ ''.'' @ k @ ''['' @ nat_repr i @ '']'') 0 ys schema_list of
        Inl e \<Rightarrow> Inl e
      | Inr schema_list' \<Rightarrow> schema_items cfg path rest schema_list')"
| "schema_items cfg path ((k, PDict kvs) # rest) schema_list =
     (case schema_gen cfg (PDict kvs) (path @ ''.'' @ k) schema_list of
        Inl e \<Rightarrow> Inl e
      | Inr schema_list' \<Rightarrow> schema_items cfg path rest schema_list')"
| "schema_items cfg path ((k, v) # rest) schema_list =
     (case member_line cfg path k v of
        Inl e \<Rightarrow> Inl e
      | Inr l \<Rightarrow> schema_items cfg path rest (schema_list @ [l]))"

text \<open>
  \<^verbatim>\<open>create_schema\<close>, from the list the object holds (empty after \<^verbatim>\<open>__init__\<close> and after
  every call that returned): the text and the list it leaves, which is empty.
\<close>

definition create_schema :: "opts \<Rightarrow> pyval \<Rightarrow> string list \<Rightarrow> error + (string \<times> string list)" where
  "create_schema cfg data schema_list =
     (case schema_gen cfg data [] schema_list of
        Inl e \<Rightarrow> Inl e
      | Inr schema_list' \<Rightarrow> Inr (join [NL] schema_list', []))"

section \<open>Notions of the specification\<close>

text \<open>\<^verbatim>\<open>class opts\<close> as the module defines it: every option is \<^verbatim>\<open>None\<close>.\<close>

definition default_opts :: opts where
  "default_opts =
     \<lparr>compact = False, nulls = False, raw = False, lines = False, mono = False, types = False\<rparr>"

text \<open>
  The leaves of a value, in depth-first pre-order: the scalars and nulls, the elements of
  a list in index order and the members of a dictionary in insertion order. An empty list
  or dictionary has none.
\<close>

fun leaves :: "pyval \<Rightarrow> pyval list" where
  "leaves (PList xs) = concat (map leaves xs)"
| "leaves (PDict kvs) = concat (map (\<lambda>kv. leaves (snd kv)) kvs)"
| "leaves v = [v]"

text \<open>The JSON literal of a leaf: what \<^verbatim>\<open>json.dumps(v, ensure_ascii=False)\<close> returns.\<close>

definition literal :: "pyval \<Rightarrow> string" where
  "literal v = encode '', '' '': '' None 0 v"

text \<open>
  The classification of a rendered literal in the words of the specification: exactly
  \<^verbatim>\<open>true\<close> or \<^verbatim>\<open>false\<close> is a boolean, exactly \<^verbatim>\<open>null\<close> is null, a text of digits with at
  most one decimal point in it (and at least one digit) is a number, anything else is a
  string. A digit is what \<open>char_isdigit\<close> accepts.
\<close>

datatype kind = Boolean | Null | Number | String

definition digits_and_at_most_one_point :: "string \<Rightarrow> bool" where
  "digits_and_at_most_one_point t =
     (let ds = filter (\<lambda>c. c \<noteq> CHR ''.'') t
      in length t \<le> length ds + 1 \<and> ds \<noteq> [] \<and> list_all char_isdigit ds)"

definition spec_kind :: "string \<Rightarrow> kind" where
  "spec_kind t =
     (if t = ''true'' \<or> t = ''false'' then Boolean
      else if t = ''null'' then Null
      else if digits_and_at_most_one_point t then Number
      else String)"

fun kind_comment :: "kind \<Rightarrow> string" where
  "kind_comment Boolean = ''// (boolean)''"
| "kind_comment Null = ''// (null)''"
| "kind_comment Number = ''// (number)''"
| "kind_comment String = ''// (string)''"

text \<open>A number whose rendered literal begins with a minus sign.\<close>

fun negative_number :: "pyval \<Rightarrow> bool" where
  "negative_number (PInt i) = (i < 0)"
| "negative_number (PFloat f) = (case float_json f of [] \<Rightarrow> False | c # t \<Rightarrow> c = CHR ''-'')"
| "negative_number v = False"


definition compact_json :: "pyval \<Rightarrow> string" where
  "compact_json v = encode '','' '':'' None 0 v"

text \<open>
  The line of a string: its newlines replaced, then as it is when \<open>raw\<close> is set, and
  between two double quotes otherwise.
\<close>

definition string_line :: "opts \<Rightarrow> string \<Rightarrow> string" where
  "string_line cfg s =
     (if raw cfg then replace_newlines s else [DQ] @ replace_newlines s @ [DQ])"

fun element_line :: "opts \<Rightarrow> pyval \<Rightarrow> string" where
  "element_line cfg PNone = (if nulls cfg then ''null'' else [])"
| "element_line cfg (PStr s) = string_line cfg s"
| "element_line cfg v = compact_json v"

text \<open>An element that the loop over a flat list gives a line: anything but a list or a
  foreign object.\<close>

fun line_element :: "pyval \<Rightarrow> bool" where
  "line_element (PList xs) = False"
| "line_element (Foreign r) = False"
| "line_element v = True"

text \<open>
  A JSON string literal (RFC 8259): a double quote, then characters that are neither a
  double quote, nor a backslash, nor below 32, or escapes (a backslash and one of
  \<^verbatim>\<open>" \ / b f n r t\<close>, or a backslash, \<^verbatim>\<open>u\<close> and four hexadecimal digits), then a double
  quote.
\<close>

definition hex_digit :: "char \<Rightarrow> bool" where
  "hex_digit c = (c \<in> set ''0123456789abcdefABCDEF'')"

function json_chars :: "string \<Rightarrow> bool" where
  "json_chars [] = True"
| "json_chars (c # cs) =
     (if c = BSL then
        (case cs of
           [] \<Rightarrow> False
         | e # r \<Rightarrow>
             if e \<in> set [DQ, BSL, CHR ''/'', CHR ''b'', CHR ''f'', CHR ''n'', CHR ''r'', CHR ''t'']
             then json_chars r
             else if e = CHR ''u''
             then 4 \<le> length r \<and> list_all hex_digit (take 4 r) \<and> json_chars (drop 4 r)
             else False)
      else c \<noteq> DQ \<and> 32 \<le> (of_char c :: nat) \<and> json_chars cs)"
  by pat_completeness auto
termination
  by (relation "measure length") auto

definition json_string_literal :: "string \<Rightarrow> bool" where
  "json_string_literal t =
     (2 \<le> length t \<and> hd t = DQ \<and> last t = DQ \<and> json_chars (butlast (tl t)))"

text \<open>
  A string without a double quote, a backslash, or a control character other than the
  newline.
\<close>

definition plain_string :: "string \<Rightarrow> bool" where
  "plain_string s = list_all (\<lambda>c. c \<noteq> DQ \<and> c \<noteq> BSL \<and> (32 \<le> (of_char c :: nat) \<or> c = NL)) s"

text \<open>A schema line \<open>l\<close> that one of the two line builders gives for the leaf.\<close>

definition line_of_leaf :: "opts \<Rightarrow> string \<Rightarrow> pyval \<Rightarrow> bool" where
  "line_of_leaf cfg l leaf =
     ((\<exists>p. leaf_line cfg p leaf = Inr l) \<or> (\<exists>p k. member_line cfg p k leaf = Inr l))"

text \<open>
  The lines of a text, as \<^verbatim>\<open>text.split('\n')\<close> gives them: the parts between its
  newlines. The empty text has no line.
\<close>

fun split_newline :: "string \<Rightarrow> string list" where
  "split_newline [] = [[]]"
| "split_newline (c # cs) =
     (if c = NL then [] # split_newline cs
      else (case split_newline cs of [] \<Rightarrow> [[c]] | l # ls \<Rightarrow> (c # l) # ls))"

definition text_lines :: "string \<Rightarrow> string list" where
  "text_lines t = (if t = [] then [] else split_newline t)"

text \<open>
  A value none of whose dictionary keys holds a newline. The text of a finite float is
  made of the characters \<^verbatim>\<open>float.__repr__\<close> writes: digits, the point, the exponent
  letter and the two signs.
\<close>

fun float_text :: "pyfloat \<Rightarrow> bool" where
  "float_text (Finite t) = list_all (\<lambda>c. c \<in> set ''0123456789.e+-'') t"
| "float_text f = True"

fun newline_free :: "pyval \<Rightarrow> bool" where
  "newline_free (PFloat f) = float_text f"
| "newline_free (PList xs) = list_all newline_free xs"
| "newline_free (PDict kvs) = list_all (\<lambda>kv. NL \<notin> set (fst kv) \<and> newline_free (snd kv)) kvs"
| "newline_free v = True"

section \<open>Evaluation on concrete inputs\<close>

lemmas ev = create_schema_def member_line_def leaf_line_def dumps_def val_type_of_def
  int_repr_def nat_repr.simps digit_char_def hex_char_def isdigit_def char_isdigit_def replace_first_dot_def
  json_str_def json_escape_char_def newline_indent_def create_json_def rstrip_def char_isspace_def
  default_opts_def

section \<open>The schema walk visits the leaves in order\<close>

lemma leaf_line_not_Inl: "\<not> has_foreign v \<Longrightarrow> leaf_line cfg p v \<noteq> Inl e"
  by (simp add: leaf_line_def dumps_def Let_def)

lemma member_line_not_Inl: "\<not> has_foreign v \<Longrightarrow> member_line cfg p k v \<noteq> Inl e"
  by (simp add: member_line_def dumps_def Let_def)

lemma line_of_leaf_leafI: "leaf_line cfg p v = Inr l \<Longrightarrow> line_of_leaf cfg l v"
  by (auto simp: line_of_leaf_def)

lemma line_of_leaf_memberI: "member_line cfg p k v = Inr l \<Longrightarrow> line_of_leaf cfg l v"
  by (auto simp: line_of_leaf_def)

lemma schema_walk:
  "(\<not> has_foreign v \<longrightarrow>
      (\<exists>ls. schema_gen cfg v path buf = Inr (buf @ ls) \<and> list_all2 (line_of_leaf cfg) ls (leaves v)))"
  "((\<forall>x\<in>set xs. \<not> has_foreign x) \<longrightarrow>
      (\<exists>ls. schema_each cfg pathf i xs buf = Inr (buf @ ls)
         \<and> list_all2 (line_of_leaf cfg) ls (concat (map leaves xs))))"
  "((\<forall>kv\<in>set kvs. \<not> has_foreign (snd kv)) \<longrightarrow>
      (\<exists>ls. schema_items cfg path kvs buf = Inr (buf @ ls)
         \<and> list_all2 (line_of_leaf cfg) ls (concat (map (\<lambda>kv. leaves (snd kv)) kvs))))"
  apply (induction cfg v path buf and cfg pathf i xs buf and cfg path kvs buf
      rule: schema_gen_schema_each_schema_items.induct)
  apply (auto simp: list_ex_iff leaf_line_not_Inl member_line_not_Inl
      intro!: list_all2_appendI intro: line_of_leaf_leafI split: sum.splits)
  apply (erule line_of_leaf_memberI)+
  done


section \<open>The type comment, in the code and in the words of the specification\<close>

lemma length_filter_full: "(length t \<le> length (filter Q t)) = (filter Q t = t)"
proof
  assume le: "length t \<le> length (filter Q t)"
  have "\<forall>x\<in>set t. Q x"
  proof (rule ccontr)
    assume "\<not> (\<forall>x\<in>set t. Q x)"
    then obtain x where "x \<in> set t" "\<not> Q x" by blast
    then have "length (filter Q t) < length t" by (rule length_filter_less)
    with le show False by simp
  qed
  then show "filter Q t = t" by (simp add: filter_id_conv)
next
  assume "filter Q t = t"
  then show "length t \<le> length (filter Q t)" by simp
qed

lemma remove1_digits:
  "\<not> P d \<Longrightarrow>
   list_all P (remove1 d t) =
     (length t \<le> length (filter (\<lambda>c. c \<noteq> d) t) + 1 \<and> list_all P (filter (\<lambda>c. c \<noteq> d) t))"
proof (induction t)
  case Nil
  then show ?case by simp
next
  case (Cons c t)
  show ?case
  proof (cases "c = d")
    case True
    have "list_all P t \<Longrightarrow> filter (\<lambda>c. c \<noteq> d) t = t"
      using Cons.prems by (induction t) auto
    then show ?thesis
      using True by (auto simp: length_filter_full)
  next
    case False
    then show ?thesis using Cons by auto
  qed
qed

lemma remove1_empty:
  "length t \<le> length (filter (\<lambda>c. c \<noteq> d) t) + 1 \<Longrightarrow>
   (remove1 d t = []) = (filter (\<lambda>c. c \<noteq> d) t = [])"
  by (cases t) (auto simp: length_filter_full split: if_splits)

lemma isdigit_replace_first_dot:
  "isdigit (replace_first_dot t) = digits_and_at_most_one_point t"
proof -
  have nd: "\<not> char_isdigit (CHR ''.'')"
    by (simp add: char_isdigit_def)
  show ?thesis
    unfolding isdigit_def replace_first_dot_def digits_and_at_most_one_point_def Let_def
    using remove1_digits [of char_isdigit "CHR ''.''" t, OF nd] remove1_empty [of t "CHR ''.''"]
    by auto
qed

lemma val_type_of_spec: "val_type_of val = kind_comment (spec_kind val)"
  by (simp add: val_type_of_def spec_kind_def isdigit_replace_first_dot)


section \<open>The shape of a schema line\<close>

lemma dumps_literal: "dumps None None v = (if has_foreign v then Inl TypeError else Inr (literal v))"
  by (simp add: dumps_def literal_def)

lemma replicate_spaces: "set (replicate n SP) \<subseteq> {SP}"
  by auto

lemma two_spaces: "set [SP, SP] \<subseteq> {SP}"
  by simp

lemma leaf_line_form:
  assumes "leaf_line cfg p v = Inr l"
  shows "\<exists>pad. set pad \<subseteq> {SP} \<and>
           l = (if p = [] then ''.'' else p) @ '' = '' @ literal v @ '';'' @ pad
                 @ (if types cfg then kind_comment (spec_kind (literal v)) else [])"
proof -
  from assms have nf: "\<not> has_foreign v"
    by (auto simp: leaf_line_def dumps_literal split: if_splits)
  let ?q = "if p = [] then ''.'' else p"
  let ?t = "if types cfg then val_type_of (literal v) else []"
  let ?n = "length ?q + length (literal v) + length ?t"
  let ?pad = "if ?n < 70 then replicate (70 - ?n) SP else ''  ''"
  have "leaf_line cfg p v = Inr (?q @ '' = '' @ literal v @ '';'' @ ?pad @ ?t)"
    using nf by (simp add: leaf_line_def dumps_literal Let_def)
  with assms have l: "l = ?q @ '' = '' @ literal v @ '';'' @ ?pad @ ?t"
    by simp
  have pad: "set ?pad \<subseteq> {SP}"
    by auto
  have "?t = (if types cfg then kind_comment (spec_kind (literal v)) else [])"
    by (simp add: val_type_of_spec)
  with l have "l = ?q @ '' = '' @ literal v @ '';'' @ ?pad
      @ (if types cfg then kind_comment (spec_kind (literal v)) else [])"
    by (simp only:)
  with pad show ?thesis
    by (intro exI [of _ ?pad] conjI)
qed

lemma member_line_form:
  assumes "member_line cfg p k v = Inr l"
  shows "\<exists>pad. set pad \<subseteq> {SP} \<and> (\<not> types cfg \<longrightarrow> pad = []) \<and>
           l = (p @ ''.'' @ k) @ '' = '' @ literal v @ '';'' @ pad
                 @ (if types cfg then kind_comment (spec_kind (literal v)) else [])"
proof -
  from assms have nf: "\<not> has_foreign v"
    by (auto simp: member_line_def dumps_literal split: if_splits)
  let ?t = "if types cfg then val_type_of (literal v) else []"
  let ?n = "length p + length k + length (literal v) + length ?t"
  let ?pad = "if types cfg then (if ?n < 70 then replicate (69 - ?n) SP else ''  '') else []"
  have "member_line cfg p k v = Inr ((p @ ''.'' @ k) @ '' = '' @ literal v @ '';'' @ ?pad @ ?t)"
    using nf by (simp add: member_line_def dumps_literal Let_def)
  with assms have l: "l = (p @ ''.'' @ k) @ '' = '' @ literal v @ '';'' @ ?pad @ ?t"
    by simp
  have pad: "set ?pad \<subseteq> {SP}"
    by auto
  have pad0: "\<not> types cfg \<longrightarrow> ?pad = []"
    by simp
  have "?t = (if types cfg then kind_comment (spec_kind (literal v)) else [])"
    by (simp add: val_type_of_spec)
  with l have "l = (p @ ''.'' @ k) @ '' = '' @ literal v @ '';'' @ ?pad
      @ (if types cfg then kind_comment (spec_kind (literal v)) else [])"
    by (simp only:)
  with pad pad0 show ?thesis
    by (intro exI [of _ ?pad] conjI)
qed

lemma line_of_leaf_form:
  assumes "line_of_leaf cfg l leaf"
  shows "\<exists>p pad. set pad \<subseteq> {SP} \<and>
           l = p @ '' = '' @ literal leaf @ '';'' @ pad
                 @ (if types cfg then kind_comment (spec_kind (literal leaf)) else [])"
proof -
  from assms consider p where "leaf_line cfg p leaf = Inr l"
    | p k where "member_line cfg p k leaf = Inr l"
    unfolding line_of_leaf_def by blast
  then show ?thesis
  proof cases
    case 1
    from leaf_line_form [OF 1] show ?thesis by blast
  next
    case 2
    from member_line_form [OF 2] show ?thesis by blast
  qed
qed

section \<open>Lines mode\<close>

lemma dumps_not_ValueError: "dumps separators indent v \<noteq> Inl ValueError"
  by (simp add: dumps_def Let_def)

lemma flat_loop_not_ValueError: "flat_loop cfg separators xs acc \<noteq> Inl ValueError"
  by (induction cfg separators xs acc rule: flat_loop.induct)
    (auto simp: Let_def dumps_not_ValueError split: sum.splits)

lemma list_includes_list_iff: "list_includes_list xs = (\<exists>x\<in>set xs. is_list x)"
  by (induction xs) auto

lemma dumps_compact:
  "\<not> has_foreign v \<Longrightarrow> dumps (Some ('','', '':'')) None v = Inr (compact_json v)"
  by (simp add: dumps_def compact_json_def)

lemma flat_loop_lines:
  assumes "\<forall>x\<in>set xs. line_element x \<and> \<not> has_foreign x"
  shows "flat_loop cfg (Some ('','', '':'')) xs acc
           = Inr (acc @ concat (map (\<lambda>x. element_line cfg x @ [NL]) xs))"
  using assms
proof (induction xs arbitrary: acc)
  case Nil
  show ?case by simp
next
  case (Cons x xs)
  then have rest: "\<And>acc. flat_loop cfg (Some ('','', '':'')) xs acc
      = Inr (acc @ concat (map (\<lambda>x. element_line cfg x @ [NL]) xs))"
    and x: "line_element x" "\<not> has_foreign x"
    by simp_all
  from x show ?case
    by (cases x) (simp_all add: rest dumps_compact string_line_def Let_def)
qed

lemma rstrip_append_space: "char_isspace c \<Longrightarrow> rstrip (s @ [c]) = rstrip s"
  by (simp add: rstrip_def)

lemma concat_lines_join:
  "ls \<noteq> [] \<Longrightarrow> concat (map (\<lambda>l. l @ [NL]) ls) = join [NL] ls @ [NL]"
  by (induction "[NL]" ls rule: join.induct) simp_all

lemma NL_isspace: "char_isspace NL"
  by (simp add: char_isspace_def)

lemma rstrip_lines:
  "rstrip (concat (map (\<lambda>x. f x @ [NL]) xs)) = rstrip (join [NL] (map f xs))"
proof (cases "xs = []")
  case True
  then show ?thesis by simp
next
  case False
  then have "concat (map (\<lambda>l. l @ [NL]) (map f xs)) = join [NL] (map f xs) @ [NL]"
    by (intro concat_lines_join) simp
  then have "concat (map (\<lambda>x. f x @ [NL]) xs) = join [NL] (map f xs) @ [NL]"
    by (simp add: comp_def)
  then show ?thesis
    by (simp only: rstrip_append_space [OF NL_isspace])
qed


lemma create_json_lines:
  assumes "lines cfg" and "\<forall>x\<in>set xs. line_element x \<and> \<not> has_foreign x"
  shows "create_json cfg (PList xs) = Inr (rstrip (join [NL] (map (element_line cfg) xs)))"
proof -
  have "\<not> list_includes_list xs"
  proof
    assume "list_includes_list xs"
    then obtain x where "x \<in> set xs" "is_list x"
      by (auto simp: list_includes_list_iff)
    with assms(2) show False by (cases x) auto
  qed
  then show ?thesis
    using assms(1) by (simp add: create_json_def flat_loop_lines [OF assms(2)] rstrip_lines)
qed

section \<open>Texts without a newline\<close>

lemma digit_char_no_newline: "d < 10 \<Longrightarrow> digit_char d \<noteq> NL"
proof -
  assume "d < 10"
  then have "digit_char d \<in> set ''0123456789''"
    unfolding digit_char_def by (intro nth_mem) simp
  then show ?thesis by auto
qed

lemma nat_repr_no_newline: "NL \<notin> set (nat_repr n)"
proof (induction n rule: nat_repr.induct)
  case (1 n)
  show ?case
  proof (cases "n < 10")
    case True
    then show ?thesis
      using digit_char_no_newline [of n] by (subst nat_repr.simps) auto
  next
    case False
    with 1 have "NL \<notin> set (nat_repr (n div 10))" by simp
    moreover have "digit_char (n mod 10) \<noteq> NL"
      by (rule digit_char_no_newline) simp
    ultimately show ?thesis
      using False by (subst nat_repr.simps) auto
  qed
qed

lemma int_repr_no_newline: "NL \<notin> set (int_repr i)"
  by (simp add: int_repr_def nat_repr_no_newline)

lemma hex_char_no_newline: "d < 16 \<Longrightarrow> hex_char d \<noteq> NL"
proof -
  assume "d < 16"
  then have "hex_char d \<in> set ''0123456789abcdef''"
    unfolding hex_char_def by (intro nth_mem) simp
  then show ?thesis by auto
qed

lemma hex2_no_newline: "NL \<notin> set (hex2 c)"
proof -
  have "(of_char c :: nat) < 256" by simp
  then have "(of_char c :: nat) div 16 < 16" by arith
  moreover have "(of_char c :: nat) mod 16 < 16" by simp
  ultimately show ?thesis
    using hex_char_no_newline [of "(of_char c :: nat) div 16"]
      hex_char_no_newline [of "(of_char c :: nat) mod 16"]
    by (auto simp: hex2_def)
qed

lemma json_escape_char_no_newline: "NL \<notin> set (json_escape_char c)"
  using hex2_no_newline [of c] by (simp add: json_escape_char_def)

lemma json_str_no_newline: "NL \<notin> set (json_str s)"
  by (simp add: json_str_def json_escape_char_no_newline)

lemma repr_char_no_newline: "q \<noteq> NL \<Longrightarrow> NL \<notin> set (repr_char q c)"
  using hex2_no_newline [of c] by (simp add: repr_char_def)

lemma str_repr_no_newline: "NL \<notin> set (str_repr s)"
  by (simp add: str_repr_def Let_def repr_char_no_newline)

lemma join_no_newline:
  "NL \<notin> set sep \<Longrightarrow> \<forall>x\<in>set xs. NL \<notin> set x \<Longrightarrow> NL \<notin> set (join sep xs)"
  by (induction sep xs rule: join.induct) simp_all

lemma float_text_no_newline:
  assumes "float_text (Finite t)"
  shows "NL \<notin> set t"
proof -
  from assms have "\<forall>c\<in>set t. c \<in> set ''0123456789.e+-''"
    by (simp only: float_text.simps list_all_iff)
  moreover have "NL \<notin> set ''0123456789.e+-''"
    by simp
  ultimately show ?thesis
    by blast
qed

lemma float_json_no_newline: "float_text f \<Longrightarrow> NL \<notin> set (float_json f)"
  by (cases f) (simp_all add: float_text_no_newline del: float_text.simps)

lemma float_repr_no_newline: "float_text f \<Longrightarrow> NL \<notin> set (float_repr f)"
  by (cases f) (simp_all add: float_text_no_newline del: float_text.simps)

lemma py_repr_no_newline:
  "\<not> has_foreign v \<Longrightarrow> newline_free v \<Longrightarrow> NL \<notin> set (py_repr v)"
proof (induction v rule: py_repr.induct)
  case (6 xs)
  then have "\<forall>x\<in>set xs. NL \<notin> set (py_repr x)"
    by (auto simp: list_ex_iff list_all_iff)
  then have "NL \<notin> set (join '', '' (map py_repr xs))"
    by (intro join_no_newline) simp_all
  then show ?case by simp
next
  case (7 kvs)
  then have "\<forall>kv\<in>set kvs. NL \<notin> set (py_repr (snd kv))"
    by (auto simp: list_ex_iff list_all_iff)
  then have "NL \<notin> set (join '', '' (map (\<lambda>kv. str_repr (fst kv) @ '': '' @ py_repr (snd kv)) kvs))"
    by (intro join_no_newline) (simp_all add: str_repr_no_newline)
  then show ?case by simp
qed (simp_all add: int_repr_no_newline float_repr_no_newline str_repr_no_newline)

lemma encode_no_newline:
  "NL \<notin> set isep \<Longrightarrow> NL \<notin> set ksep \<Longrightarrow> \<not> has_foreign v \<Longrightarrow> newline_free v \<Longrightarrow>
   NL \<notin> set (encode isep ksep None level v)"
proof (induction isep ksep "None :: nat option" level v rule: encode.induct)
  case (6 isep ksep level xs)
  have "\<forall>x\<in>set xs. NL \<notin> set (encode isep ksep None (Suc level) x)"
  proof
    fix x assume x: "x \<in> set xs"
    then have "xs \<noteq> []" by auto
    with 6 x show "NL \<notin> set (encode isep ksep None (Suc level) x)"
      by (simp add: list_ex_iff list_all_iff)
  qed
  with 6(2) have "NL \<notin> set (join isep (map (encode isep ksep None (Suc level)) xs))"
    by (intro join_no_newline) simp_all
  then show ?case by (simp add: newline_indent_def)
next
  case (7 isep ksep level kvs)
  have "\<forall>kv\<in>set kvs. NL \<notin> set (encode isep ksep None (Suc level) (snd kv))"
  proof
    fix kv assume kv: "kv \<in> set kvs"
    then have "kvs \<noteq> []" by auto
    with 7 kv show "NL \<notin> set (encode isep ksep None (Suc level) (snd kv))"
      by (simp add: list_ex_iff list_all_iff)
  qed
  with 7(2,3) have "NL \<notin> set (join isep
      (map (\<lambda>kv. json_str (fst kv) @ ksep @ encode isep ksep None (Suc level) (snd kv)) kvs))"
    by (intro join_no_newline) (simp_all add: json_str_no_newline)
  then show ?case by (simp add: newline_indent_def)
qed (simp_all add: int_repr_no_newline float_json_no_newline json_str_no_newline)

lemma literal_no_newline:
  "\<not> has_foreign v \<Longrightarrow> newline_free v \<Longrightarrow> NL \<notin> set (literal v)"
  by (simp add: literal_def encode_no_newline)

lemma val_type_of_no_newline: "NL \<notin> set (val_type_of val)"
  by (simp add: val_type_of_def)

lemma leaf_line_one_line:
  assumes "leaf_line cfg p v = Inr l" and "NL \<notin> set p" and "newline_free v"
  shows "NL \<notin> set l"
proof -
  from assms(1) have nf: "\<not> has_foreign v"
    by (auto simp: leaf_line_def dumps_literal split: if_splits)
  then have lit: "NL \<notin> set (literal v)"
    using assms(3) by (rule literal_no_newline)
  let ?q = "if p = [] then ''.'' else p"
  let ?t = "if types cfg then val_type_of (literal v) else []"
  let ?n = "length ?q + length (literal v) + length ?t"
  let ?pad = "if ?n < 70 then replicate (70 - ?n) SP else ''  ''"
  have "leaf_line cfg p v = Inr (?q @ '' = '' @ literal v @ '';'' @ ?pad @ ?t)"
    using nf by (simp add: leaf_line_def dumps_literal Let_def)
  with assms(1) have l: "l = ?q @ '' = '' @ literal v @ '';'' @ ?pad @ ?t"
    by simp
  have "NL \<notin> set ?q" using assms(2) by simp
  moreover have "NL \<notin> set ?pad" by simp
  moreover have "NL \<notin> set ?t" by (simp add: val_type_of_no_newline)
  ultimately show ?thesis
    unfolding l using lit by (simp only: set_append Un_iff) simp
qed

lemma member_line_one_line:
  assumes "member_line cfg p k v = Inr l" and "NL \<notin> set p" and "NL \<notin> set k"
    and "newline_free v"
  shows "NL \<notin> set l"
proof -
  from assms(1) have nf: "\<not> has_foreign v"
    by (auto simp: member_line_def dumps_literal split: if_splits)
  then have lit: "NL \<notin> set (literal v)"
    using assms(4) by (rule literal_no_newline)
  let ?t = "if types cfg then val_type_of (literal v) else []"
  let ?n = "length p + length k + length (literal v) + length ?t"
  let ?pad = "if types cfg then (if ?n < 70 then replicate (69 - ?n) SP else ''  '') else []"
  have "member_line cfg p k v = Inr (p @ ''.'' @ k @ '' = '' @ literal v @ '';'' @ ?pad @ ?t)"
    using nf by (simp add: member_line_def dumps_literal Let_def)
  with assms(1) have l: "l = p @ ''.'' @ k @ '' = '' @ literal v @ '';'' @ ?pad @ ?t"
    by simp
  have "NL \<notin> set ?pad" by simp
  moreover have "NL \<notin> set ?t" by (simp add: val_type_of_no_newline)
  ultimately show ?thesis
    unfolding l using lit assms(2,3) by (simp only: set_append Un_iff) simp
qed

lemma leaf_case_one_line:
  "\<forall>ls. (case leaf_line cfg path v of Inl e \<Rightarrow> Inl e | Inr l \<Rightarrow> Inr (buf @ [l])) = Inr ls \<longrightarrow>
      \<not> has_foreign v \<longrightarrow> newline_free v \<longrightarrow> NL \<notin> set path \<longrightarrow> (\<forall>l\<in>set buf. NL \<notin> set l) \<longrightarrow>
      (\<forall>l\<in>set ls. NL \<notin> set l)"
proof (intro allI impI)
  fix ls
  assume gen: "(case leaf_line cfg path v of Inl e \<Rightarrow> Inl e | Inr l \<Rightarrow> Inr (buf @ [l])) = Inr ls"
    and free: "newline_free v" and p: "NL \<notin> set path" and b: "\<forall>l\<in>set buf. NL \<notin> set l"
  from gen obtain l where l: "leaf_line cfg path v = Inr l" and ls: "ls = buf @ [l]"
    by (auto split: sum.splits)
  from leaf_line_one_line [OF l p free] b show "\<forall>l\<in>set ls. NL \<notin> set l"
    unfolding ls by simp
qed

lemma member_case_one_line:
  assumes step: "\<And>l. member_line cfg path k v = Inr l \<Longrightarrow>
      \<forall>ls. schema_items cfg path rest (buf @ [l]) = Inr ls \<longrightarrow>
        (\<forall>kv\<in>set rest. \<not> has_foreign (snd kv) \<and> NL \<notin> set (fst kv) \<and> newline_free (snd kv)) \<longrightarrow>
        NL \<notin> set path \<longrightarrow> (\<forall>x\<in>set (buf @ [l]). NL \<notin> set x) \<longrightarrow> (\<forall>x\<in>set ls. NL \<notin> set x)"
  shows "\<forall>ls. (case member_line cfg path k v of Inl e \<Rightarrow> Inl e
                | Inr l \<Rightarrow> schema_items cfg path rest (buf @ [l])) = Inr ls \<longrightarrow>
      (\<forall>kv\<in>set ((k, v) # rest).
          \<not> has_foreign (snd kv) \<and> NL \<notin> set (fst kv) \<and> newline_free (snd kv)) \<longrightarrow>
      NL \<notin> set path \<longrightarrow> (\<forall>l\<in>set buf. NL \<notin> set l) \<longrightarrow> (\<forall>l\<in>set ls. NL \<notin> set l)"
proof (intro allI impI)
  fix ls
  assume items: "(case member_line cfg path k v of Inl e \<Rightarrow> Inl e
                | Inr l \<Rightarrow> schema_items cfg path rest (buf @ [l])) = Inr ls"
    and kvs: "\<forall>kv\<in>set ((k, v) # rest).
        \<not> has_foreign (snd kv) \<and> NL \<notin> set (fst kv) \<and> newline_free (snd kv)"
    and p: "NL \<notin> set path" and b: "\<forall>l\<in>set buf. NL \<notin> set l"
  from items obtain l where l: "member_line cfg path k v = Inr l"
    and r: "schema_items cfg path rest (buf @ [l]) = Inr ls"
    by (auto split: sum.splits)
  from kvs have k: "NL \<notin> set k" and v: "newline_free v"
    and rest: "\<forall>kv\<in>set rest. \<not> has_foreign (snd kv) \<and> NL \<notin> set (fst kv) \<and> newline_free (snd kv)"
    by simp_all
  from member_line_one_line [OF l p k v] b have "\<forall>x\<in>set (buf @ [l]). NL \<notin> set x"
    by simp
  with step [OF l] r rest p show "\<forall>l\<in>set ls. NL \<notin> set l"
    by blast
qed

lemma schema_walk_one_line:
  "(\<forall>ls. schema_gen cfg v path buf = Inr ls \<longrightarrow> \<not> has_foreign v \<longrightarrow> newline_free v \<longrightarrow>
      NL \<notin> set path \<longrightarrow> (\<forall>l\<in>set buf. NL \<notin> set l) \<longrightarrow> (\<forall>l\<in>set ls. NL \<notin> set l))"
  "(\<forall>ls. schema_each cfg pathf i xs buf = Inr ls \<longrightarrow>
      (\<forall>x\<in>set xs. \<not> has_foreign x \<and> newline_free x) \<longrightarrow>
      (\<forall>j. NL \<notin> set (pathf j)) \<longrightarrow> (\<forall>l\<in>set buf. NL \<notin> set l) \<longrightarrow> (\<forall>l\<in>set ls. NL \<notin> set l))"
  "(\<forall>ls. schema_items cfg path kvs buf = Inr ls \<longrightarrow>
      (\<forall>kv\<in>set kvs. \<not> has_foreign (snd kv) \<and> NL \<notin> set (fst kv) \<and> newline_free (snd kv)) \<longrightarrow>
      NL \<notin> set path \<longrightarrow> (\<forall>l\<in>set buf. NL \<notin> set l) \<longrightarrow> (\<forall>l\<in>set ls. NL \<notin> set l))"
proof (induction cfg v path buf and cfg pathf i xs buf and cfg path kvs buf
      rule: schema_gen_schema_each_schema_items.induct)
  case (1 cfg xs path buf)
  show ?case
  proof (intro allI impI)
    fix ls
    assume gen: "schema_gen cfg (PList xs) path buf = Inr ls"
      and nf: "\<not> has_foreign (PList xs)" and free: "newline_free (PList xs)"
      and p: "NL \<notin> set path" and b: "\<forall>l\<in>set buf. NL \<notin> set l"
    from nf free have xs: "\<forall>x\<in>set xs. \<not> has_foreign x \<and> newline_free x"
      by (simp add: list_ex_iff list_all_iff)
    have r: "NL \<notin> set (py_repr (PList xs))"
      using nf free by (rule py_repr_no_newline)
    show "\<forall>l\<in>set ls. NL \<notin> set l"
    proof (cases "path = []")
      case True
      with gen have "schema_each cfg (\<lambda>i. ''.['' @ nat_repr i @ '']'') 0 xs buf = Inr ls"
        by simp
      moreover have "\<forall>j. NL \<notin> set (''.['' @ nat_repr j @ '']'')"
        by (simp add: nat_repr_no_newline)
      ultimately show ?thesis
        using 1(1) [OF True] xs b by blast
    next
      case False
      with gen have "schema_each cfg
          (\<lambda>i. path @ ''.'' @ py_repr (PList xs) @ ''['' @ nat_repr i @ '']'') 0 xs buf = Inr ls"
        by (simp del: py_repr.simps)
      moreover have "\<forall>j. NL \<notin> set (path @ ''.'' @ py_repr (PList xs) @ ''['' @ nat_repr j @ '']'')"
        using p r by (simp add: nat_repr_no_newline del: py_repr.simps)
      ultimately show ?thesis
        using 1(2) [OF False] xs b by blast
    qed
  qed
next
  case (2 cfg kvs path buf)
  show ?case
  proof (intro allI impI)
    fix ls
    assume gen: "schema_gen cfg (PDict kvs) path buf = Inr ls"
      and nf: "\<not> has_foreign (PDict kvs)" and free: "newline_free (PDict kvs)"
      and p: "NL \<notin> set path" and b: "\<forall>l\<in>set buf. NL \<notin> set l"
    from nf free
    have kvs: "\<forall>kv\<in>set kvs. \<not> has_foreign (snd kv) \<and> NL \<notin> set (fst kv) \<and> newline_free (snd kv)"
      by (simp add: list_ex_iff list_all_iff)
    from gen have "schema_items cfg path kvs buf = Inr ls"
      by simp
    then show "\<forall>l\<in>set ls. NL \<notin> set l"
      using 2 kvs p b by blast
  qed
next
  case (4 cfg pathf i buf)
  show ?case by simp
next
  case (5 cfg pathf i item rest buf)
  show ?case
  proof (intro allI impI)
    fix ls
    assume each: "schema_each cfg pathf i (item # rest) buf = Inr ls"
      and xs: "\<forall>x\<in>set (item # rest). \<not> has_foreign x \<and> newline_free x"
      and pf: "\<forall>j. NL \<notin> set (pathf j)" and b: "\<forall>l\<in>set buf. NL \<notin> set l"
    from each obtain mid where g: "schema_gen cfg item (pathf i) buf = Inr mid"
      and r: "schema_each cfg pathf (Suc i) rest mid = Inr ls"
      by (auto split: sum.splits)
    from xs have item: "\<not> has_foreign item" "newline_free item"
      and rest: "\<forall>x\<in>set rest. \<not> has_foreign x \<and> newline_free x"
      by simp_all
    from 5(1) g item pf b have "\<forall>l\<in>set mid. NL \<notin> set l"
      by blast
    with 5(2) [OF g] r rest pf show "\<forall>l\<in>set ls. NL \<notin> set l"
      by blast
  qed
next
  case (6 cfg path buf)
  show ?case by simp
next
  case (7 cfg path k ys rest buf)
  show ?case
  proof (intro allI impI)
    fix ls
    assume items: "schema_items cfg path ((k, PList ys) # rest) buf = Inr ls"
      and kvs: "\<forall>kv\<in>set ((k, PList ys) # rest).
          \<not> has_foreign (snd kv) \<and> NL \<notin> set (fst kv) \<and> newline_free (snd kv)"
      and p: "NL \<notin> set path" and b: "\<forall>l\<in>set buf. NL \<notin> set l"
    from items obtain mid
      where g: "schema_each cfg (\<lambda>i. path @ ''.'' @ k @ ''['' @ nat_repr i @ '']'') 0 ys buf = Inr mid"
      and r: "schema_items cfg path rest mid = Inr ls"
      by (auto split: sum.splits)
    from kvs have k: "NL \<notin> set k"
      and ys: "\<forall>x\<in>set ys. \<not> has_foreign x \<and> newline_free x"
      and rest: "\<forall>kv\<in>set rest. \<not> has_foreign (snd kv) \<and> NL \<notin> set (fst kv) \<and> newline_free (snd kv)"
      by (simp_all add: list_ex_iff list_all_iff)
    have "\<forall>j. NL \<notin> set (path @ ''.'' @ k @ ''['' @ nat_repr j @ '']'')"
      using p k by (simp add: nat_repr_no_newline)
    with 7(1) g ys b have "\<forall>l\<in>set mid. NL \<notin> set l"
      by blast
    with 7(2) [OF g] r rest p show "\<forall>l\<in>set ls. NL \<notin> set l"
      by blast
  qed
next
  case (8 cfg path k kvs' rest buf)
  show ?case
  proof (intro allI impI)
    fix ls
    assume items: "schema_items cfg path ((k, PDict kvs') # rest) buf = Inr ls"
      and kvs: "\<forall>kv\<in>set ((k, PDict kvs') # rest).
          \<not> has_foreign (snd kv) \<and> NL \<notin> set (fst kv) \<and> newline_free (snd kv)"
      and p: "NL \<notin> set path" and b: "\<forall>l\<in>set buf. NL \<notin> set l"
    from items obtain mid
      where g: "schema_gen cfg (PDict kvs') (path @ ''.'' @ k) buf = Inr mid"
      and r: "schema_items cfg path rest mid = Inr ls"
      by (auto split: sum.splits)
    from kvs have k: "NL \<notin> set k"
      and d: "\<not> has_foreign (PDict kvs')" "newline_free (PDict kvs')"
      and rest: "\<forall>kv\<in>set rest. \<not> has_foreign (snd kv) \<and> NL \<notin> set (fst kv) \<and> newline_free (snd kv)"
      by simp_all
    have "NL \<notin> set (path @ ''.'' @ k)"
      using p k by simp
    with 8(1) g d b have "\<forall>l\<in>set mid. NL \<notin> set l"
      by blast
    with 8(2) [OF g] r rest p show "\<forall>l\<in>set ls. NL \<notin> set l"
      by blast
  qed
next
  case "3_1"
  show ?case
    unfolding schema_gen.simps by (rule leaf_case_one_line)
next
  case "3_2"
  show ?case
    unfolding schema_gen.simps by (rule leaf_case_one_line)
next
  case "3_3"
  show ?case
    unfolding schema_gen.simps by (rule leaf_case_one_line)
next
  case "3_4"
  show ?case
    unfolding schema_gen.simps by (rule leaf_case_one_line)
next
  case "3_5"
  show ?case
    unfolding schema_gen.simps by (rule leaf_case_one_line)
next
  case "3_6"
  show ?case
    unfolding schema_gen.simps by (rule leaf_case_one_line)
next
  case "9_1"
  show ?case
    unfolding schema_items.simps by (rule member_case_one_line) (rule "9_1")
next
  case "9_2"
  show ?case
    unfolding schema_items.simps by (rule member_case_one_line) (rule "9_2")
next
  case "9_3"
  show ?case
    unfolding schema_items.simps by (rule member_case_one_line) (rule "9_3")
next
  case "9_4"
  show ?case
    unfolding schema_items.simps by (rule member_case_one_line) (rule "9_4")
next
  case "9_5"
  show ?case
    unfolding schema_items.simps by (rule member_case_one_line) (rule "9_5")
next
  case "9_6"
  show ?case
    unfolding schema_items.simps by (rule member_case_one_line) (rule "9_6")
qed

section \<open>The lines of a text\<close>

lemma split_newline_line: "NL \<notin> set l \<Longrightarrow> split_newline l = [l]"
  by (induction l) auto

lemma split_newline_append:
  "NL \<notin> set l \<Longrightarrow> split_newline (l @ NL # t) = l # split_newline t"
  by (induction l) auto

lemma split_newline_join:
  "ls \<noteq> [] \<Longrightarrow> \<forall>l\<in>set ls. NL \<notin> set l \<Longrightarrow> split_newline (join [NL] ls) = ls"
  by (induction "[NL]" ls rule: join.induct) (simp_all add: split_newline_line split_newline_append)

lemma text_lines_join:
  assumes "\<forall>l\<in>set ls. NL \<notin> set l \<and> l \<noteq> []"
  shows "text_lines (join [NL] ls) = ls"
proof (cases ls)
  case Nil
  then show ?thesis by (simp add: text_lines_def)
next
  case (Cons l ls')
  with assms have "l \<noteq> []" by simp
  then have "join [NL] ls \<noteq> []"
    using Cons by (cases ls') simp_all
  moreover have "split_newline (join [NL] ls) = ls"
    using assms Cons by (intro split_newline_join) auto
  ultimately show ?thesis by (simp add: text_lines_def)
qed

lemma list_all2_left:
  "list_all2 R xs ys \<Longrightarrow> \<forall>x\<in>set xs. P x \<Longrightarrow> list_all2 (\<lambda>x y. P x \<and> R x y) xs ys"
  by (induction rule: list_all2_induct) auto

lemma list_all2_left_all:
  "list_all2 R xs ys \<Longrightarrow> (\<And>x y. R x y \<Longrightarrow> Q x) \<Longrightarrow> \<forall>x\<in>set xs. Q x"
  by (induction rule: list_all2_induct) auto

lemma one_line_of_leaf_form:
  assumes "NL \<notin> set l" and "line_of_leaf cfg l leaf" and "\<not> types cfg"
  shows "\<exists>p pad. NL \<notin> set p \<and> set pad \<subseteq> {SP} \<and> l = p @ '' = '' @ literal leaf @ '';'' @ pad"
proof -
  from line_of_leaf_form [OF assms(2)] assms(3)
  obtain p pad where pad: "set pad \<subseteq> {SP}" and l: "l = p @ '' = '' @ literal leaf @ '';'' @ pad"
    by auto
  from assms(1) have "NL \<notin> set p"
    unfolding l by simp
  with pad l show ?thesis by blast
qed

section \<open>The claims\<close>

text \<open>
  C7. For the value \<^verbatim>\<open>{"a": {"b": 1, "c": [true, null]}}\<close> with type comments enabled, the
  schema is exactly three lines, in this order: \<^verbatim>\<open>.a.b = 1;\<close> annotated \<^verbatim>\<open>(number)\<close>,
  \<^verbatim>\<open>.a.c[0] = true;\<close> annotated \<^verbatim>\<open>(boolean)\<close> and \<^verbatim>\<open>.a.c[1] = null;\<close> annotated
  \<^verbatim>\<open>(null)\<close>. Each line is 74 characters long, the comment at its right end.
\<close>

theorem c7_nested_example:
  "create_schema (cfg\<lparr>types := True\<rparr>)
     (PDict [(''a'', PDict [(''b'', PInt 1), (''c'', PList [PBool True, PNone])])]) []
   = Inr (join [NL]
       [''.a.b = 1;'' @ replicate 54 SP @ ''// (number)'',
        ''.a.c[0] = true;'' @ replicate 47 SP @ ''// (boolean)'',
        ''.a.c[1] = null;'' @ replicate 50 SP @ ''// (null)''], [])"
  by (simp add: ev)

text \<open>
  C3. Without type comments a line should be \<^verbatim>\<open>{path} = {literal};\<close> and nothing more.
  The line of a dictionary member is; the line of a root scalar or of a list element is
  followed by blanks up to column 74, since lines 203 to 205 compute the padding outside
  the test of \<^verbatim>\<open>opts.types\<close>.
\<close>

theorem c3_root_scalar_padded:
  "create_schema (cfg\<lparr>types := False\<rparr>) (PInt 1) [] = Inr (''. = 1;'' @ replicate 68 SP, [])
   \<and> create_schema (cfg\<lparr>types := False\<rparr>) (PList [PInt 1]) []
       = Inr (''.[0] = 1;'' @ replicate 65 SP, [])
   \<and> create_schema (cfg\<lparr>types := False\<rparr>) (PDict [(''a'', PInt 1)]) [] = Inr (''.a = 1;'', [])"
  by (simp add: ev)

text \<open>
  C1. A value with a component that is not serializable should make \<^verbatim>\<open>create_json\<close> fail.
  In lines mode an element of the root list that is such an object matches no branch of
  the loop and is left out: \<^verbatim>\<open>[1, set(), 2]\<close> gives the two lines \<^verbatim>\<open>1\<close> and \<^verbatim>\<open>2\<close>. The same
  object as the root value, or inside a dictionary of the list, raises \<^verbatim>\<open>TypeError\<close>.
\<close>

theorem c1_foreign_element_dropped:
  "create_json (cfg\<lparr>lines := True\<rparr>) (PList [PInt 1, Foreign r, PInt 2])
     = Inr [CHR ''1'', NL, CHR ''2'']
   \<and> create_json (cfg\<lparr>lines := True\<rparr>) (PList [Foreign r]) = Inr []
   \<and> create_json (cfg\<lparr>lines := True\<rparr>) (Foreign r) = Inl TypeError
   \<and> create_json (cfg\<lparr>lines := True\<rparr>) (PList [PDict [(''a'', Foreign r)]]) = Inl TypeError"
  by (simp add: ev)


text \<open>
  C6, as the claim states it, fails: a key of a dictionary is written into the path as it
  is, so a key that holds a newline breaks the line of its leaf in two. The value
  \<^verbatim>\<open>{"a\nb": 1}\<close> has one leaf and its schema has two lines, \<^verbatim>\<open>.a\<close> and \<^verbatim>\<open>b = 1;\<close>.
\<close>

theorem c6_newline_key_counterexample:
  "\<not> types default_opts
   \<and> \<not> has_foreign (PDict [(''a'' @ [NL] @ ''b'', PInt 1)])
   \<and> create_schema default_opts (PDict [(''a'' @ [NL] @ ''b'', PInt 1)]) []
       = Inr (''.a'' @ [NL] @ ''b = 1;'', [])
   \<and> text_lines (''.a'' @ [NL] @ ''b = 1;'') = [''.a'', ''b = 1;'']
   \<and> leaves (PDict [(''a'' @ [NL] @ ''b'', PInt 1)]) = [PInt 1]
   \<and> length (text_lines (''.a'' @ [NL] @ ''b = 1;''))
       \<noteq> length (leaves (PDict [(''a'' @ [NL] @ ''b'', PInt 1)]))"
  by (simp add: ev text_lines_def)

text \<open>
  C6, amended. For a JSON-compatible value none of whose keys holds a newline, and
  without type comments, the lines of the schema text (its parts between newlines) and
  the leaves (scalars and nulls) of the value in depth-first pre-order correspond one to
  one, in order: there are as many lines as leaves and no other line, and each line is a
  path without a newline, the literal of its leaf and a semicolon (followed at most by
  blanks). An empty list or dictionary has no leaf and gives no line, and an empty root
  gives the empty text. (\<open>newline_free\<close> also asks that the text of a float is made of the
  characters \<^verbatim>\<open>float.__repr__\<close> writes.)
\<close>

theorem c6_one_line_per_leaf:
  assumes "\<not> types cfg" and "\<not> has_foreign v" and "newline_free v"
  shows "(\<exists>t. create_schema cfg v [] = Inr (t, [])
            \<and> length (text_lines t) = length (leaves v)
            \<and> list_all2
                (\<lambda>l leaf. \<exists>p pad. NL \<notin> set p \<and> set pad \<subseteq> {SP}
                   \<and> l = p @ '' = '' @ literal leaf @ '';'' @ pad)
                (text_lines t) (leaves v))
         \<and> leaves (PList []) = [] \<and> leaves (PDict []) = []
         \<and> create_schema cfg (PList []) [] = Inr ([], [])
         \<and> create_schema cfg (PDict []) [] = Inr ([], [])"
proof -
  from schema_walk(1) [of v cfg "[]" "[]"] assms(2)
  obtain ls where gen: "schema_gen cfg v [] [] = Inr ls"
    and walk: "list_all2 (line_of_leaf cfg) ls (leaves v)"
    by auto
  from schema_walk_one_line(1) [of cfg v "[]" "[]"] gen assms(2,3)
  have one: "\<forall>l\<in>set ls. NL \<notin> set l"
    by simp
  from list_all2_left [OF walk one]
  have form: "list_all2
      (\<lambda>l leaf. \<exists>p pad. NL \<notin> set p \<and> set pad \<subseteq> {SP}
         \<and> l = p @ '' = '' @ literal leaf @ '';'' @ pad)
      ls (leaves v)"
  proof (rule list_all2_mono)
    fix l leaf
    assume "NL \<notin> set l \<and> line_of_leaf cfg l leaf"
    then show "\<exists>p pad. NL \<notin> set p \<and> set pad \<subseteq> {SP}
        \<and> l = p @ '' = '' @ literal leaf @ '';'' @ pad"
      using assms(1) by (intro one_line_of_leaf_form) simp_all
  qed
  have "\<forall>l\<in>set ls. l \<noteq> []"
    using form by (rule list_all2_left_all) auto
  with one have "text_lines (join [NL] ls) = ls"
    by (intro text_lines_join) simp
  moreover have "create_schema cfg v [] = Inr (join [NL] ls, [])"
    using gen by (simp add: create_schema_def)
  moreover have "length ls = length (leaves v)"
    using walk by (rule list_all2_lengthD)
  moreover have "create_schema cfg (PList []) [] = Inr ([], [])"
    by (simp add: create_schema_def)
  moreover have "create_schema cfg (PDict []) [] = Inr ([], [])"
    by (simp add: create_schema_def)
  ultimately show ?thesis
    using form by auto
qed

theorem c6_one_line_per_leaf_witness:
  "\<not> types default_opts
   \<and> \<not> has_foreign (PDict [(''a'', PList [PInt 1, PList []]), (''b'', PDict []), (''c'', PNone)])
   \<and> newline_free (PDict [(''a'', PList [PInt 1, PList []]), (''b'', PDict []), (''c'', PNone)])
   \<and> (\<exists>t. create_schema default_opts
              (PDict [(''a'', PList [PInt 1, PList []]), (''b'', PDict []), (''c'', PNone)]) []
            = Inr (t, [])
          \<and> length (text_lines t) = 2)"
  using c6_one_line_per_leaf
    [of default_opts "PDict [(''a'', PList [PInt 1, PList []]), (''b'', PDict []), (''c'', PNone)]"]
  by (auto simp: default_opts_def)


text \<open>
  C5, as the claim states it, fails: a string whose content is \<^verbatim>\<open>true\<close>, \<^verbatim>\<open>null\<close> or
  \<^verbatim>\<open>3.14\<close> is rendered with its double quotes, and the rendered text is classified, so
  the annotation is \<^verbatim>\<open>(string)\<close> and not \<^verbatim>\<open>(boolean)\<close>, \<^verbatim>\<open>(null)\<close> or \<^verbatim>\<open>(number)\<close>.
\<close>

theorem c5_string_content_counterexample:
  "create_schema (default_opts\<lparr>types := True\<rparr>)
     (PDict [(''a'', PStr ''true''), (''b'', PStr ''null''), (''c'', PStr ''3.14'')]) []
   = Inr (join [NL]
       [''.a = '' @ [DQ] @ ''true'' @ [DQ] @ '';'' @ replicate 51 SP @ ''// (string)'',
        ''.b = '' @ [DQ] @ ''null'' @ [DQ] @ '';'' @ replicate 51 SP @ ''// (string)'',
        ''.c = '' @ [DQ] @ ''3.14'' @ [DQ] @ '';'' @ replicate 51 SP @ ''// (string)''], [])
   \<and> val_type_of (literal (PStr ''true'')) \<noteq> ''// (boolean)''
   \<and> val_type_of (literal (PStr ''null'')) \<noteq> ''// (null)''
   \<and> val_type_of (literal (PStr ''3.14'')) \<noteq> ''// (number)''"
  by (simp add: ev literal_def)

text \<open>
  C5, amended. With type comments, every line of the schema of a JSON-compatible value
  ends with the comment of the kind of its leaf's rendered literal, the kind being
  computed from that text alone: exactly \<^verbatim>\<open>true\<close> or \<^verbatim>\<open>false\<close> is a boolean, exactly
  \<^verbatim>\<open>null\<close> is null, a text of digits with at most one decimal point is a number, anything
  else is a string. The literal of a string begins with a double quote, so a string is
  annotated \<^verbatim>\<open>(string)\<close> whatever its content; a boolean is annotated \<^verbatim>\<open>(boolean)\<close> and a
  null \<^verbatim>\<open>(null)\<close>.
\<close>

theorem c5_type_comment_from_literal:
  assumes "types cfg" and "\<not> has_foreign v"
  shows "(\<exists>ls. create_schema cfg v [] = Inr (join [NL] ls, [])
            \<and> list_all2
                (\<lambda>l leaf. \<exists>p pad. set pad \<subseteq> {SP}
                   \<and> l = p @ '' = '' @ literal leaf @ '';'' @ pad
                         @ kind_comment (spec_kind (literal leaf)))
                ls (leaves v))
         \<and> val_type_of val = kind_comment (spec_kind val)
         \<and> spec_kind (literal (PStr s)) = String
         \<and> spec_kind (literal (PBool b)) = Boolean
         \<and> spec_kind (literal PNone) = Null"
proof -
  from schema_walk(1) [of v cfg "[]" "[]"] assms(2)
  obtain ls where gen: "schema_gen cfg v [] [] = Inr ls"
    and walk: "list_all2 (line_of_leaf cfg) ls (leaves v)"
    by auto
  have form: "list_all2
      (\<lambda>l leaf. \<exists>p pad. set pad \<subseteq> {SP}
         \<and> l = p @ '' = '' @ literal leaf @ '';'' @ pad @ kind_comment (spec_kind (literal leaf)))
      ls (leaves v)"
    using walk
  proof (rule list_all2_mono)
    fix l leaf
    assume "line_of_leaf cfg l leaf"
    from line_of_leaf_form [OF this] assms(1)
    show "\<exists>p pad. set pad \<subseteq> {SP}
        \<and> l = p @ '' = '' @ literal leaf @ '';'' @ pad @ kind_comment (spec_kind (literal leaf))"
      by simp
  qed
  have "create_schema cfg v [] = Inr (join [NL] ls, [])"
    using gen by (simp add: create_schema_def)
  moreover have "spec_kind (literal (PStr s)) = String"
    by (simp add: spec_kind_def literal_def json_str_def digits_and_at_most_one_point_def
        char_isdigit_def)
  moreover have "spec_kind (literal (PBool b)) = Boolean"
    by (simp add: spec_kind_def literal_def)
  moreover have "spec_kind (literal PNone) = Null"
    by (simp add: spec_kind_def literal_def)
  ultimately show ?thesis
    using form val_type_of_spec by blast
qed

theorem c5_type_comment_from_literal_witness:
  "types (default_opts\<lparr>types := True\<rparr>)
   \<and> \<not> has_foreign (PList [PStr ''true'', PBool True])
   \<and> (\<exists>ls. create_schema (default_opts\<lparr>types := True\<rparr>) (PList [PStr ''true'', PBool True]) []
            = Inr (join [NL] ls, [])
          \<and> list_all2
              (\<lambda>l leaf. \<exists>p pad. set pad \<subseteq> {SP}
                 \<and> l = p @ '' = '' @ literal leaf @ '';'' @ pad
                       @ kind_comment (spec_kind (literal leaf)))
              ls [PStr ''true'', PBool True])"
  using c5_type_comment_from_literal
    [of "default_opts\<lparr>types := True\<rparr>" "PList [PStr ''true'', PBool True]"]
  by (simp add: default_opts_def)


lemma minus_literal_is_string: "val_type_of (CHR ''-'' # t) = ''// (string)''"
  by (simp add: val_type_of_def isdigit_def replace_first_dot_def char_isdigit_def)

lemma negative_number_literal:
  assumes "negative_number v"
  shows "\<not> has_foreign v \<and> (\<exists>t. literal v = CHR ''-'' # t)"
proof (cases v)
  case (PInt i)
  with assms show ?thesis by (simp add: literal_def int_repr_def)
next
  case (PFloat f)
  with assms show ?thesis by (simp add: literal_def split: list.splits)
qed (use assms in simp_all)

text \<open>
  C10. With type comments, a negative number (its rendered literal begins with a minus
  sign, as \<^verbatim>\<open>-5\<close> or \<^verbatim>\<open>-3.14\<close>) is annotated \<^verbatim>\<open>(string)\<close>, both as a member of a
  dictionary and as a root scalar or list element: the minus sign is not a digit.
\<close>

theorem c10_negative_number_is_string:
  assumes "types cfg" and "negative_number v"
  shows "(\<exists>t. literal v = CHR ''-'' # t)
         \<and> (\<exists>pad. set pad \<subseteq> {SP}
               \<and> member_line cfg path k v
                   = Inr (path @ ''.'' @ k @ '' = '' @ literal v @ '';'' @ pad @ ''// (string)''))
         \<and> (\<exists>pad. set pad \<subseteq> {SP}
               \<and> leaf_line cfg path v
                   = Inr ((if path = [] then ''.'' else path) @ '' = '' @ literal v @ '';'' @ pad
                          @ ''// (string)''))"
proof -
  from negative_number_literal [OF assms(2)]
  obtain t where nf: "\<not> has_foreign v" and lit: "literal v = CHR ''-'' # t"
    by blast
  have kind: "kind_comment (spec_kind (literal v)) = ''// (string)''"
    using minus_literal_is_string [of t] by (simp only: lit val_type_of_spec)
  obtain l where l: "member_line cfg path k v = Inr l"
    using member_line_not_Inl [OF nf, of cfg path k] by (cases "member_line cfg path k v") auto
  obtain l' where l': "leaf_line cfg path v = Inr l'"
    using leaf_line_not_Inl [OF nf, of cfg path] by (cases "leaf_line cfg path v") auto
  from member_line_form [OF l] assms(1) kind
  have "\<exists>pad. set pad \<subseteq> {SP}
      \<and> member_line cfg path k v
          = Inr (path @ ''.'' @ k @ '' = '' @ literal v @ '';'' @ pad @ ''// (string)'')"
    unfolding l by auto
  moreover from leaf_line_form [OF l'] assms(1) kind
  have "\<exists>pad. set pad \<subseteq> {SP}
      \<and> leaf_line cfg path v
          = Inr ((if path = [] then ''.'' else path) @ '' = '' @ literal v @ '';'' @ pad
                 @ ''// (string)'')"
    unfolding l' by auto
  ultimately show ?thesis
    using lit by blast
qed

theorem c10_negative_number_is_string_witness:
  "types (default_opts\<lparr>types := True\<rparr>) \<and> negative_number (PInt (- 5))
   \<and> negative_number (PFloat (Finite ''-3.14''))
   \<and> (\<exists>pad. set pad \<subseteq> {SP}
         \<and> member_line (default_opts\<lparr>types := True\<rparr>) ''.a'' ''b'' (PInt (- 5))
             = Inr (''.a.b = -5;'' @ pad @ ''// (string)''))
   \<and> (\<exists>pad. set pad \<subseteq> {SP}
         \<and> leaf_line (default_opts\<lparr>types := True\<rparr>) [] (PFloat (Finite ''-3.14''))
             = Inr (''. = -3.14;'' @ pad @ ''// (string)''))"
  using c10_negative_number_is_string
      [of "default_opts\<lparr>types := True\<rparr>" "PInt (- 5)" "''.a''" "''b''"]
    c10_negative_number_is_string
      [of "default_opts\<lparr>types := True\<rparr>" "PFloat (Finite ''-3.14'')" "[]" "[]"]
  by (simp add: default_opts_def literal_def int_repr_def nat_repr.simps digit_char_def)


text \<open>
  C8. With type comments, when the lengths of the path, of the key if there is one, of
  the literal and of the type comment add up to less than 70, blanks are put before the
  comment so that the line is 74 characters long, for a dictionary member as for a root
  scalar or list element: the comment ends at the same column on all these lines. When
  the sum is 70 or more, exactly two blanks come before the comment.
\<close>

theorem c8_alignment:
  assumes "types cfg" and "\<not> has_foreign v"
  shows "(length path + length k + length (literal v) + length (val_type_of (literal v)) < 70 \<longrightarrow>
           (\<exists>l pad. member_line cfg path k v = Inr l \<and> set pad \<subseteq> {SP} \<and> length l = 74
              \<and> l = path @ ''.'' @ k @ '' = '' @ literal v @ '';'' @ pad @ val_type_of (literal v)))
       \<and> (70 \<le> length path + length k + length (literal v) + length (val_type_of (literal v)) \<longrightarrow>
           member_line cfg path k v
             = Inr (path @ ''.'' @ k @ '' = '' @ literal v @ '';'' @ ''  '' @ val_type_of (literal v)))
       \<and> (path \<noteq> [] \<and> length path + length (literal v) + length (val_type_of (literal v)) < 70 \<longrightarrow>
           (\<exists>l pad. leaf_line cfg path v = Inr l \<and> set pad \<subseteq> {SP} \<and> length l = 74
              \<and> l = path @ '' = '' @ literal v @ '';'' @ pad @ val_type_of (literal v)))
       \<and> (path \<noteq> [] \<and> 70 \<le> length path + length (literal v) + length (val_type_of (literal v)) \<longrightarrow>
           leaf_line cfg path v
             = Inr (path @ '' = '' @ literal v @ '';'' @ ''  '' @ val_type_of (literal v)))
       \<and> (\<exists>l pad. leaf_line cfg [] v = Inr l \<and> set pad \<subseteq> {SP}
              \<and> (length (literal v) + length (val_type_of (literal v)) < 69 \<longrightarrow> length l = 74)
              \<and> (69 \<le> length (literal v) + length (val_type_of (literal v)) \<longrightarrow> pad = ''  '')
              \<and> l = ''. = '' @ literal v @ '';'' @ pad @ val_type_of (literal v))"
proof (intro conjI impI)
  let ?t = "val_type_of (literal v)"
  let ?pad = "replicate (69 - (length path + length k + length (literal v) + length ?t)) SP"
  assume "length path + length k + length (literal v) + length ?t < 70"
  then show "\<exists>l pad. member_line cfg path k v = Inr l \<and> set pad \<subseteq> {SP} \<and> length l = 74
      \<and> l = path @ ''.'' @ k @ '' = '' @ literal v @ '';'' @ pad @ ?t"
    using assms
    by - (rule exI [of _ "path @ ''.'' @ k @ '' = '' @ literal v @ '';'' @ ?pad @ ?t"], rule exI [of _ ?pad],
        simp add: member_line_def dumps_literal Let_def replicate_spaces)
next
  assume "70 \<le> length path + length k + length (literal v) + length (val_type_of (literal v))"
  then show "member_line cfg path k v
      = Inr (path @ ''.'' @ k @ '' = '' @ literal v @ '';'' @ ''  '' @ val_type_of (literal v))"
    using assms by (simp add: member_line_def dumps_literal Let_def replicate_spaces)
next
  let ?t = "val_type_of (literal v)"
  let ?pad = "replicate (70 - (length path + length (literal v) + length ?t)) SP"
  assume "path \<noteq> [] \<and> length path + length (literal v) + length ?t < 70"
  then show "\<exists>l pad. leaf_line cfg path v = Inr l \<and> set pad \<subseteq> {SP} \<and> length l = 74
      \<and> l = path @ '' = '' @ literal v @ '';'' @ pad @ ?t"
    using assms
    by - (rule exI [of _ "path @ '' = '' @ literal v @ '';'' @ ?pad @ ?t"], rule exI [of _ ?pad],
        simp add: leaf_line_def dumps_literal Let_def replicate_spaces)
next
  assume "path \<noteq> [] \<and> 70 \<le> length path + length (literal v) + length (val_type_of (literal v))"
  then show "leaf_line cfg path v
      = Inr (path @ '' = '' @ literal v @ '';'' @ ''  '' @ val_type_of (literal v))"
    using assms by (simp add: leaf_line_def dumps_literal Let_def replicate_spaces)
next
  let ?t = "val_type_of (literal v)"
  let ?n = "Suc (length (literal v) + length ?t)"
  let ?pad = "if ?n < 70 then replicate (70 - ?n) SP else ''  ''"
  show "\<exists>l pad. leaf_line cfg [] v = Inr l \<and> set pad \<subseteq> {SP}
      \<and> (length (literal v) + length ?t < 69 \<longrightarrow> length l = 74)
      \<and> (69 \<le> length (literal v) + length ?t \<longrightarrow> pad = ''  '')
      \<and> l = ''. = '' @ literal v @ '';'' @ pad @ ?t"
    using assms
    by - (rule exI [of _ "''. = '' @ literal v @ '';'' @ ?pad @ ?t"], rule exI [of _ ?pad],
        simp add: leaf_line_def dumps_literal Let_def replicate_spaces)
qed

theorem c8_alignment_witness:
  "types (default_opts\<lparr>types := True\<rparr>) \<and> \<not> has_foreign (PInt 1)
   \<and> member_line (default_opts\<lparr>types := True\<rparr>) ''.a'' ''b'' (PInt 1)
       = Inr (''.a.b = 1;'' @ replicate 54 SP @ ''// (number)'')
   \<and> leaf_line (default_opts\<lparr>types := True\<rparr>) ''.a[0]'' (PInt 1)
       = Inr (''.a[0] = 1;'' @ replicate 53 SP @ ''// (number)'')
   \<and> member_line (default_opts\<lparr>types := True\<rparr>) (replicate 70 (CHR ''p'')) ''b'' (PInt 1)
       = Inr (replicate 70 (CHR ''p'') @ ''.b = 1;  // (number)'')
   \<and> leaf_line (default_opts\<lparr>types := True\<rparr>) (replicate 70 (CHR ''p'')) (PInt 1)
       = Inr (replicate 70 (CHR ''p'') @ '' = 1;  // (number)'')"
  using c8_alignment [of "default_opts\<lparr>types := True\<rparr>" "PInt 1" "''.a''" "''b''"]
    c8_alignment [of "default_opts\<lparr>types := True\<rparr>" "PInt 1" "''.a[0]''" "''b''"]
    c8_alignment [of "default_opts\<lparr>types := True\<rparr>" "PInt 1" "replicate 70 (CHR ''p'')" "''b''"]
  by (simp add: ev literal_def)


text \<open>
  C4. In lines mode with a list as the root, \<^verbatim>\<open>create_json\<close> raises \<^verbatim>\<open>ValueError\<close> exactly
  when an element of the list is itself a list; the flat list \<^verbatim>\<open>[1, 2, 3]\<close> gives the text
  of the three lines \<^verbatim>\<open>1\<close>, \<^verbatim>\<open>2\<close>, \<^verbatim>\<open>3\<close>.
\<close>

theorem c4_list_of_lists_rejected:
  assumes "lines cfg"
  shows "(create_json cfg (PList xs) = Inl ValueError) = (\<exists>x\<in>set xs. is_list x)
         \<and> create_json cfg (PList [PInt 1, PInt 2, PInt 3])
             = Inr [CHR ''1'', NL, CHR ''2'', NL, CHR ''3'']"
proof
  show "(create_json cfg (PList xs) = Inl ValueError) = (\<exists>x\<in>set xs. is_list x)"
  proof (cases "list_includes_list xs")
    case True
    then show ?thesis
      using assms by (simp add: create_json_def list_includes_list_iff)
  next
    case False
    then have "create_json cfg (PList xs) \<noteq> Inl ValueError"
      using assms flat_loop_not_ValueError [of cfg "Some ('','', '':'')" xs "[]"]
      by (auto simp: create_json_def split: sum.splits)
    then show ?thesis
      using False by (simp add: list_includes_list_iff)
  qed
  show "create_json cfg (PList [PInt 1, PInt 2, PInt 3]) = Inr [CHR ''1'', NL, CHR ''2'', NL, CHR ''3'']"
    using assms by (simp add: ev)
qed

theorem c4_list_of_lists_rejected_witness:
  "lines (default_opts\<lparr>lines := True\<rparr>)
   \<and> create_json (default_opts\<lparr>lines := True\<rparr>) (PList [PList [PInt 1, PInt 2]]) = Inl ValueError
   \<and> create_json (default_opts\<lparr>lines := True\<rparr>) (PList [PInt 1, PStr ''a'']) \<noteq> Inl ValueError"
  using c4_list_of_lists_rejected [of "default_opts\<lparr>lines := True\<rparr>" "[PList [PInt 1, PInt 2]]"]
    c4_list_of_lists_rejected [of "default_opts\<lparr>lines := True\<rparr>" "[PInt 1, PStr ''a'']"]
  by (simp add: default_opts_def)



lemma replace_newlines_concat:
  "replace_newlines s = concat (map (\<lambda>c. if c = NL then [BSL, CHR ''n''] else [c]) s)"
  by (induction s) simp_all

lemma replace_newlines_no_newline: "NL \<notin> set (replace_newlines s)"
  by (induction s) simp_all

lemma plain_json_escape:
  assumes "c \<noteq> DQ" and "c \<noteq> BSL" and "32 \<le> (of_char c :: nat) \<or> c = NL"
  shows "json_escape_char c = (if c = NL then [BSL, CHR ''n''] else [c])"
  using assms by (auto simp: json_escape_char_def)

lemma plain_string_escapes:
  "plain_string s \<Longrightarrow> concat (map json_escape_char s) = replace_newlines s"
  by (induction s) (simp_all add: plain_string_def plain_json_escape)

lemma plain_string_json_chars: "plain_string s \<Longrightarrow> json_chars (replace_newlines s)"
  by (induction s) (auto simp: plain_string_def)

lemma quoted_json_string_literal:
  "json_string_literal ([DQ] @ t @ [DQ]) = json_chars t"
  by (simp add: json_string_literal_def butlast_append)

text \<open>
  What the two string branches compute: the text with its newlines replaced, as it is
  when \<open>raw\<close> is set and between two double quotes otherwise. For a string without a
  double quote, a backslash or a control character other than the newline, the quoted
  text is the JSON string literal that \<^verbatim>\<open>json.dumps\<close> writes for the string.
\<close>

lemma string_rendering:
  "create_json cfg (PStr s) = Inr (string_line cfg s)
   \<and> (lines cfg \<longrightarrow>
        create_json cfg (PList (map PStr ss)) = Inr (rstrip (join [NL] (map (string_line cfg) ss))))
   \<and> (raw cfg \<longrightarrow> string_line cfg s = replace_newlines s)
   \<and> replace_newlines s = concat (map (\<lambda>c. if c = NL then [BSL, CHR ''n''] else [c]) s)
   \<and> NL \<notin> set (replace_newlines s)
   \<and> (\<not> raw cfg \<and> plain_string s \<longrightarrow>
        string_line cfg s = json_str s \<and> json_string_literal (string_line cfg s))"
proof (intro conjI impI)
  show "create_json cfg (PStr s) = Inr (string_line cfg s)"
    by (simp add: create_json_def string_line_def)
next
  assume l: "lines cfg"
  have "\<forall>x\<in>set (map PStr ss). line_element x \<and> \<not> has_foreign x"
    by auto
  from create_json_lines [OF l this]
  show "create_json cfg (PList (map PStr ss)) = Inr (rstrip (join [NL] (map (string_line cfg) ss)))"
    by (simp add: comp_def)
next
  assume "raw cfg"
  then show "string_line cfg s = replace_newlines s"
    by (simp add: string_line_def)
next
  show "replace_newlines s = concat (map (\<lambda>c. if c = NL then [BSL, CHR ''n''] else [c]) s)"
    by (rule replace_newlines_concat)
next
  show "NL \<notin> set (replace_newlines s)"
    by (rule replace_newlines_no_newline)
next
  assume a: "\<not> raw cfg \<and> plain_string s"
  then show "string_line cfg s = json_str s"
    by (simp add: string_line_def json_str_def plain_string_escapes)
next
  assume a: "\<not> raw cfg \<and> plain_string s"
  then have "json_chars (replace_newlines s)"
    by (simp add: plain_string_json_chars)
  with a show "json_string_literal (string_line cfg s)"
    by (simp only: string_line_def if_False quoted_json_string_literal)
qed

text \<open>
  C2. A root string, and a string element in lines mode, should be returned JSON-quoted
  when \<open>raw\<close> is not set: a JSON string literal, with the double quotes and backslashes
  inside it escaped. The two string branches (lines 271 to 277 and 291 to 297) put the
  text between two double quotes and escape nothing but the newline: the string \<^verbatim>\<open>a"b\<close>
  gives \<^verbatim>\<open>"a"b"\<close> and the string of one backslash gives \<^verbatim>\<open>"\"\<close>, which are not JSON
  string literals, where \<^verbatim>\<open>json.dumps\<close> writes \<^verbatim>\<open>"a\"b"\<close> and \<^verbatim>\<open>"\\"\<close>. The same string
  inside a list without lines mode, or inside a dictionary element in lines mode, goes
  through \<^verbatim>\<open>json.dumps\<close> and is escaped.
\<close>

theorem c2_quote_not_escaped:
  "create_json default_opts (PStr [CHR ''a'', DQ, CHR ''b'']) = Inr [DQ, CHR ''a'', DQ, CHR ''b'', DQ]
   \<and> \<not> json_string_literal [DQ, CHR ''a'', DQ, CHR ''b'', DQ]
   \<and> json_str [CHR ''a'', DQ, CHR ''b''] = [DQ, CHR ''a'', BSL, DQ, CHR ''b'', DQ]
   \<and> json_str (replace_newlines [CHR ''a'', DQ, CHR ''b'']) = [DQ, CHR ''a'', BSL, DQ, CHR ''b'', DQ]
   \<and> json_string_literal [DQ, CHR ''a'', BSL, DQ, CHR ''b'', DQ]
   \<and> create_json default_opts (PStr [BSL]) = Inr [DQ, BSL, DQ]
   \<and> \<not> json_string_literal [DQ, BSL, DQ]
   \<and> json_str [BSL] = [DQ, BSL, BSL, DQ]
   \<and> create_json (default_opts\<lparr>lines := True\<rparr>) (PList [PStr [CHR ''a'', DQ, CHR ''b''], PStr [BSL]])
       = Inr [DQ, CHR ''a'', DQ, CHR ''b'', DQ, NL, DQ, BSL, DQ]
   \<and> create_json (default_opts\<lparr>compact := True\<rparr>) (PList [PStr [CHR ''a'', DQ, CHR ''b'']])
       = Inr [CHR ''['', DQ, CHR ''a'', BSL, DQ, CHR ''b'', DQ, CHR '']'']
   \<and> create_json (default_opts\<lparr>lines := True\<rparr>) (PList [PDict [(''k'', PStr [CHR ''a'', DQ, CHR ''b''])]])
       = Inr ([CHR ''{'', DQ, CHR ''k'', DQ, CHR '':'', DQ, CHR ''a'', BSL, DQ, CHR ''b'', DQ, CHR ''}''])"
  by (simp add: ev json_string_literal_def)

end
